theory Spec2Isabelle
  imports Main "HOL-Library.Multiset"
begin

section \<open>Version comparator (VersionManager)\<close>

text \<open>
  Version identifiers are JavaScript strings, modelled as \<open>string\<close>: a \<open>char\<close> is a code
  unit below 256. A code unit above 255 is neither a dot, a sign nor a digit, so in the
  comparison it behaves like \<open>CHR 0xA0\<close> when it is white space and like any other
  character otherwise.

  \<open>parseInt\<close> yields a double: \<open>NaN\<close>, an integer, or an infinity. \<open>NaN\<close> is \<open>None\<close>; a
  finite double is represented by the integer it is, and the infinities by \<open>2 ^ 1024\<close> and
  its negation, which lie beyond every finite double, so that \<open><\<close> and \<open>>\<close> on the
  representation are those of the doubles.
\<close>

text \<open>\<open>String.prototype.split('.')\<close>: the pieces between the dots; an empty string gives
  one empty piece.\<close>

fun split_dot :: "string \<Rightarrow> string list" where
  "split_dot [] = [[]]"
| "split_dot (c # cs) =
     (if c = CHR ''.'' then [] # split_dot cs
      else (case split_dot cs of
              [] \<Rightarrow> [[c]]
            | p # ps \<Rightarrow> (c # p) # ps))"

text \<open>\<open>parseInt(part, 10)\<close>: leading white space is skipped, one sign is read, then the
  longest run of decimal digits; no digit at all gives \<open>NaN\<close>.\<close>

definition isWhiteSpace :: "char \<Rightarrow> bool" where
  "isWhiteSpace c =
     (of_char c \<in> set [9, 10, 11, 12, 13, 32, 160 :: nat])"

definition isDigit :: "char \<Rightarrow> bool" where
  "isDigit c = (48 \<le> (of_char c :: nat) \<and> (of_char c :: nat) \<le> 57)"

definition digitVal :: "char \<Rightarrow> nat" where
  "digitVal c = of_char c - 48"

definition digitsVal :: "string \<Rightarrow> nat" where
  "digitsVal ds = foldl (\<lambda>acc d. 10 * acc + digitVal d) 0 ds"

text \<open>The number of binary digits of a natural number.\<close>

function bitLength :: "nat \<Rightarrow> nat" where
  "bitLength n = (if n = 0 then 0 else Suc (bitLength (n div 2)))"
  by pat_completeness auto
termination
  by (relation "measure id") auto

declare bitLength.simps [simp del]

text \<open>The double nearest to a natural number, ties to the even significand: numbers
  below \<open>2 ^ 53\<close> are doubles; a longer number keeps its 53 leading binary digits, rounded;
  what rounds to \<open>2 ^ 1024\<close> or beyond is \<open>Infinity\<close>. (For a run of more than twenty
  digits the language lets an implementation read the digits after the twentieth as
  zeros; the exact value is rounded here, as V8 does.)\<close>

definition roundDouble :: "nat \<Rightarrow> nat" where
  "roundDouble n =
     (if n < 2 ^ 53 then n
      else (let e = bitLength n - 53;
                q = n div 2 ^ e;
                r = n mod 2 ^ e;
                half = 2 ^ (e - 1);
                q' = (if half < r \<or> (r = half \<and> odd q) then q + 1 else q)
            in min (q' * 2 ^ e) (2 ^ 1024)))"

definition parseInt :: "string \<Rightarrow> int option" where
  "parseInt s =
     (let t = dropWhile isWhiteSpace s;
          neg = (case t of [] \<Rightarrow> False | c # _ \<Rightarrow> c = CHR ''-'');
          u = (case t of [] \<Rightarrow> []
               | c # r \<Rightarrow> if c = CHR ''-'' \<or> c = CHR ''+'' then r else t);
          ds = takeWhile isDigit u
      in if ds = [] then None
         else Some (if neg then - int (roundDouble (digitsVal ds))
                    else int (roundDouble (digitsVal ds))))"

text \<open>\<open>parseVersion\<close>: split on dots, parse each piece, \<open>NaN\<close> becomes 0.\<close>

definition parseVersion :: "string \<Rightarrow> int list" where
  "parseVersion version =
     map (\<lambda>part. case parseInt part of None \<Rightarrow> 0 | Some num \<Rightarrow> num) (split_dot version)"

text \<open>\<open>parts[i] || 0\<close>: an index past the end reads \<open>undefined\<close>, which is falsy, and
  the number 0 is falsy too; both give 0.\<close>

definition partAt :: "int list \<Rightarrow> nat \<Rightarrow> int" where
  "partAt parts i = (if i < length parts then parts ! i else 0)"

text \<open>The \<open>for\<close> loop of \<open>defaultCompareVersions\<close>, from index \<open>i\<close> on.\<close>

function compareLoop :: "int list \<Rightarrow> int list \<Rightarrow> nat \<Rightarrow> int" where
  "compareLoop v1Parts v2Parts i =
     (if i < max (length v1Parts) (length v2Parts) then
        (if partAt v1Parts i < partAt v2Parts i then - 1
         else if partAt v1Parts i > partAt v2Parts i then 1
         else compareLoop v1Parts v2Parts (i + 1))
      else 0)"
  by pat_completeness auto
termination
  by (relation "measure (\<lambda>(v1, v2, i). max (length v1) (length v2) - i)") auto

declare compareLoop.simps [simp del]

definition defaultCompareVersions :: "string \<Rightarrow> string \<Rightarrow> int" where
  "defaultCompareVersions version1 version2 =
     (if version1 = version2 then 0
      else compareLoop (parseVersion version1) (parseVersion version2) 0)"

subsection \<open>The comparison as the specification words it\<close>

text \<open>Zero-padding a sequence of parts to a given length, and the sign of the first
  position at which two sequences of equal length differ (0 when none does).\<close>

definition zeroPad :: "nat \<Rightarrow> int list \<Rightarrow> int list" where
  "zeroPad n parts = parts @ replicate (n - length parts) 0"

fun firstDifference :: "int list \<Rightarrow> int list \<Rightarrow> int" where
  "firstDifference (x # xs) (y # ys) =
     (if x = y then firstDifference xs ys else sgn (x - y))"
| "firstDifference _ _ = 0"









section \<open>Data model\<close>

text \<open>
  A log entry is the object \<open>{ level, message }\<close>. A value that an action throws (or
  rejects with) is either \<open>null\<close>/\<open>undefined\<close>, on which reading \<open>.message\<close> raises
  a \<open>TypeError\<close>, or any other value, of which the engine reads only the \<open>message\<close>
  property (\<open>None\<close> when the property is missing).
\<close>

record logEntry =
  level :: string
  message :: string

datatype nullish = Null | Undefined

datatype thrown = Nullish nullish | Exn "string option"

datatype 'a outcome = Returns 'a | Throws thrown

text \<open>
  An action is called with the execution context. It sees and changes the host document
  \<open>'h\<close>, may call \<open>addLog\<close> (the entries it adds, in order), and returns or throws.
  The value an \<open>upgrade\<close> action resolves to is used by the engine only as
  \<open>logMessage || default\<close>: \<open>None\<close> is \<open>undefined\<close>.
\<close>

type_synonym ('h, 'a) action = "'h \<Rightarrow> 'a outcome \<times> 'h \<times> logEntry list"

record 'h step =
  builderVersion :: string
  upgrade :: "('h, string option) action"
  whatsNew :: "('h, unit) action option"

text \<open>The merged \<open>options\<close> object, shared by the version manager and the engine
  (\<open>opt_builderVersion\<close> is \<open>options.builderVersion\<close>).\<close>

record 'h options =
  opt_builderVersion :: string
  versions :: "'h step list"
  compareFn :: "(string \<Rightarrow> string \<Rightarrow> int) option"
  continueOnError :: bool

text \<open>What the integrator passes to the plugin: each property is supplied or not.\<close>

record 'h supplied =
  given_builderVersion :: "string option"
  given_versions :: "'h step list option"
  given_compareFn :: "(string \<Rightarrow> string \<Rightarrow> int) option"
  given_continueOnError :: "bool option"

text \<open>The object literal of \<open>index.js\<close>: the defaults, overridden by the spread of the
  supplied properties.\<close>

definition mergeOptions :: "'h supplied \<Rightarrow> 'h options" where
  "mergeOptions opts =
     \<lparr> opt_builderVersion = (case given_builderVersion opts of None \<Rightarrow> [] | Some v \<Rightarrow> v),
       versions = (case given_versions opts of None \<Rightarrow> [] | Some vs \<Rightarrow> vs),
       compareFn = given_compareFn opts,
       continueOnError = (case given_continueOnError opts of None \<Rightarrow> True | Some b \<Rightarrow> b) \<rparr>"

text \<open>The plugin validates the merged options and returns nothing when they are invalid.\<close>

definition plugin :: "'h supplied \<Rightarrow> 'h options option" where
  "plugin opts =
     (let options = mergeOptions opts
      in if opt_builderVersion options = [] then None
         else if list_ex (\<lambda>version. builderVersion version = []) (versions options) then None
         else Some options)"

text \<open>\<open>v || d\<close> on an optional string: \<open>undefined\<close> and the empty string are falsy.\<close>

definition orElse :: "string option \<Rightarrow> string \<Rightarrow> string" where
  "orElse v d = (case v of None \<Rightarrow> d | Some m \<Rightarrow> if m = [] then d else m)"

text \<open>\<open>!savedVersion\<close>: \<open>null\<close>, \<open>undefined\<close> and the empty string are falsy.\<close>

definition falsy :: "string option \<Rightarrow> bool" where
  "falsy v = (case v of None \<Rightarrow> True | Some m \<Rightarrow> m = [])"

section \<open>Version registry (VersionManager)\<close>

definition compareVersions :: "'h options \<Rightarrow> string \<Rightarrow> string \<Rightarrow> int" where
  "compareVersions options version1 version2 =
     (case compareFn options of
        Some f \<Rightarrow> f version1 version2
      | None \<Rightarrow> defaultCompareVersions version1 version2)"

text \<open>
  \<open>Array.prototype.sort(cmp)\<close> is stable, and for a consistent comparator its result is
  the one stable ordering of the array; insertion from the right computes that ordering.
  For a comparator that is not consistent the language leaves the order to the
  implementation, so the properties below are stated for consistent comparators.
\<close>

fun insertBy :: "('a \<Rightarrow> 'a \<Rightarrow> int) \<Rightarrow> 'a \<Rightarrow> 'a list \<Rightarrow> 'a list" where
  "insertBy cmp x [] = [x]"
| "insertBy cmp x (y # ys) =
     (if cmp x y \<le> 0 then x # y # ys else y # insertBy cmp x ys)"

definition sortBy :: "('a \<Rightarrow> 'a \<Rightarrow> int) \<Rightarrow> 'a list \<Rightarrow> 'a list" where
  "sortBy cmp xs = foldr (insertBy cmp) xs []"

definition consistent :: "('a \<Rightarrow> 'a \<Rightarrow> int) \<Rightarrow> bool" where
  "consistent cmp =
     ((\<forall>a. cmp a a = 0)
      \<and> (\<forall>a b. (cmp a b < 0) = (0 < cmp b a))
      \<and> (\<forall>a b c. cmp a b \<le> 0 \<longrightarrow> cmp b c \<le> 0 \<longrightarrow> cmp a c \<le> 0))"

definition stepOrder :: "'h options \<Rightarrow> 'h step \<Rightarrow> 'h step \<Rightarrow> int" where
  "stepOrder options a b = compareVersions options (builderVersion a) (builderVersion b)"

definition getPendingUpgrades :: "'h options \<Rightarrow> string option \<Rightarrow> string \<Rightarrow> 'h step list" where
  "getPendingUpgrades options savedVersion currentVersion =
     (case savedVersion of
        None \<Rightarrow>
          sortBy (stepOrder options)
            (filter (\<lambda>step. compareVersions options (builderVersion step) currentVersion \<le> 0)
               (versions options))
      | Some saved \<Rightarrow>
          if saved = [] then
            sortBy (stepOrder options)
              (filter (\<lambda>step. compareVersions options (builderVersion step) currentVersion \<le> 0)
                 (versions options))
          else
            sortBy (stepOrder options)
              (filter (\<lambda>step. compareVersions options saved (builderVersion step) < 0
                             \<and> compareVersions options (builderVersion step) currentVersion \<le> 0)
                 (versions options)))"


definition hasWhatsNewSteps :: "'h options \<Rightarrow> bool" where
  "hasWhatsNewSteps options = list_ex (\<lambda>step. whatsNew step \<noteq> None) (versions options)"

definition needsUpgrade :: "'h options \<Rightarrow> string option \<Rightarrow> string \<Rightarrow> bool" where
  "needsUpgrade options savedVersion currentVersion =
     (case savedVersion of
        None \<Rightarrow> getPendingUpgrades options savedVersion currentVersion \<noteq> [] \<or> hasWhatsNewSteps options
      | Some saved \<Rightarrow>
          if saved = [] then
            getPendingUpgrades options savedVersion currentVersion \<noteq> [] \<or> hasWhatsNewSteps options
          else compareVersions options saved currentVersion < 0)"

text \<open>The pending predicate as the specification words it, with absence read as the
  code reads it (\<open>falsy\<close>).\<close>

definition pendingStep :: "'h options \<Rightarrow> string option \<Rightarrow> string \<Rightarrow> 'h step \<Rightarrow> bool" where
  "pendingStep options savedVersion currentVersion step =
     (case savedVersion of
        None \<Rightarrow> compareVersions options (builderVersion step) currentVersion \<le> 0
      | Some saved \<Rightarrow>
          if falsy savedVersion then compareVersions options (builderVersion step) currentVersion \<le> 0
          else compareVersions options saved (builderVersion step) < 0
               \<and> compareVersions options (builderVersion step) currentVersion \<le> 0)"

text \<open>The pending predicate for a saved version that is present, as the specification
  words it.\<close>

definition pendingWhenPresent :: "'h options \<Rightarrow> string \<Rightarrow> string \<Rightarrow> 'h step \<Rightarrow> bool" where
  "pendingWhenPresent options saved currentVersion step =
     (compareVersions options saved (builderVersion step) < 0
      \<and> compareVersions options (builderVersion step) currentVersion \<le> 0)"

section \<open>Upgrade engine (UpgradeEngine)\<close>

text \<open>
  The state that a run reads and writes: the shared options object, the version manager's
  \<open>savedVersion\<close>, the engine's four fields, and the host. The host editor is an external
  collaborator. \<open>trigger\<close> is what the editor does with an event that \<open>emit\<close> hands to
  it (\<open>editor.trigger\<close> and, where the editor has a model, the model's \<open>trigger\<close>): it
  delivers the event to the listeners at once, which may change the host, and a listener's
  exception propagates to the caller of \<open>emit\<close>. \<open>console\<close> records the line.
  \<open>UndoManager.skip\<close> is the editor's own method and is given a callback that does
  nothing; it changes nothing and does not throw. \<open>events\<close> records each event handed to
  the editor and \<open>calls\<close> each call of a step's action, at the place where the source
  makes it; nothing in the engine reads them.
\<close>

datatype payload =
    Pending "string list"
  | ToVersion string
  | StepLog string "logEntry list"
  | StepError string string
  | RunEnd "string option" bool

datatype consoleLine = ConsoleWarn string | ConsoleError string

datatype call = UpgradeCall string | WhatsNewCall string

record 'h world =
  options :: "'h options"
  savedVersion :: "string option"
  isUpgrading :: bool
  currentStep :: "'h step option"
  allLogs :: "logEntry list"
  failedSteps :: "string list"
  host :: 'h
  trigger :: "string \<Rightarrow> payload \<Rightarrow> 'h \<Rightarrow> thrown option \<times> 'h"
  events :: "(string \<times> payload) list"
  console :: "consoleLine list"
  calls :: "call list"

text \<open>The object that \<open>runUpgrades\<close> resolves to; a property the source leaves out of
  the literal is \<open>None\<close>.\<close>

record runResult =
  success :: bool
  logs :: "logEntry list"
  upgradedTo :: "string option"
  resultFailedSteps :: "string list option"
  error :: "string option"

definition getSavedVersion :: "'h world \<Rightarrow> string option" where
  "getSavedVersion s = savedVersion s"

definition updateVersion :: "string \<Rightarrow> 'h world \<Rightarrow> 'h world" where
  "updateVersion version s = s\<lparr>options := (options s)\<lparr>opt_builderVersion := version\<rparr>\<rparr>"

definition fullEventName :: "string \<Rightarrow> string" where
  "fullEventName eventName =
     (if take 8 eventName = ''version:'' then eventName else ''version:'' @ eventName)"

text \<open>\<open>emit\<close>: the event, under its full name, goes to the editor; the first component
  of the result is what a listener threw, if one did.\<close>

definition emit :: "string \<Rightarrow> payload \<Rightarrow> 'h world \<Rightarrow> thrown option \<times> 'h world" where
  "emit eventName p s =
     (case trigger s (fullEventName eventName) p (host s) of
        (thrownValue, h) \<Rightarrow>
          (thrownValue, s\<lparr>host := h, events := events s @ [(fullEventName eventName, p)]\<rparr>))"

definition consoleLog :: "consoleLine \<Rightarrow> 'h world \<Rightarrow> 'h world" where
  "consoleLog l s = s\<lparr>console := console s @ [l]\<rparr>"

text \<open>The \<open>TypeError\<close> that reading \<open>.message\<close> of \<open>null\<close> or \<open>undefined\<close> raises
  (the message text is the engine's; this is V8's).\<close>

definition typeErrorMessage :: "nullish \<Rightarrow> string" where
  "typeErrorMessage n =
     ''Cannot read properties of ''
     @ (case n of Null \<Rightarrow> ''null'' | Undefined \<Rightarrow> ''undefined'')
     @ '' (reading '' @ [CHR 0x27] @ ''message'' @ [CHR 0x27] @ '')''"

definition typeError :: "nullish \<Rightarrow> thrown" where
  "typeError n = Exn (Some (typeErrorMessage n))"

text \<open>\<open>runSingleUpgrade\<close>: call the action with the context (its \<open>addLog\<close> entries go
  to \<open>allLogs\<close> as it runs); if it throws, rethrow; otherwise push and return the info
  log.\<close>

definition runSingleUpgrade :: "'h step \<Rightarrow> 'h world \<Rightarrow> (thrown + logEntry list) \<times> 'h world" where
  "runSingleUpgrade step s =
     (case upgrade step (host s) of
        (out, h, added) \<Rightarrow>
          (let s1 = s\<lparr>host := h, allLogs := allLogs s @ added,
                      calls := calls s @ [UpgradeCall (builderVersion step)]\<rparr>
           in case out of
                Throws e \<Rightarrow> (Inl e, s1)
              | Returns logMessage \<Rightarrow>
                  (let log = \<lparr>level = ''info'',
                              message = orElse logMessage (''Upgraded to '' @ builderVersion step)\<rparr>
                   in (Inr [log], s1\<lparr>allLogs := allLogs s1 @ [log]\<rparr>))))"

text \<open>How one iteration of the step loop ends: go on with the next step, \<open>break\<close>, or
  an error that leaves the loop.\<close>

datatype flow = Next | Break | Escape thrown

text \<open>The \<open>catch\<close> of the inner \<open>try\<close>, entered with the value caught: it reads
  \<open>error.message\<close>, which raises on \<open>null\<close> and \<open>undefined\<close>; whatever is thrown in this block
  leaves the loop.\<close>

definition stepFailed ::
  "'h step \<Rightarrow> thrown \<Rightarrow> 'h world \<Rightarrow> string option \<Rightarrow> flow \<times> 'h world \<times> string option" where
  "stepFailed step caught s lastSuccessfulVersion =
     (case caught of
        Nullish n \<Rightarrow> (Escape (typeError n), s, lastSuccessfulVersion)
      | Exn m \<Rightarrow>
          (let logMessage = orElse m ''Unknown error occurred'';
               errorLog = \<lparr>level = ''error'',
                            message = ''Failed to upgrade to '' @ builderVersion step
                                      @ '': '' @ logMessage\<rparr>;
               s1 = s\<lparr>allLogs := allLogs s @ [errorLog],
                       failedSteps := failedSteps s @ [builderVersion step]\<rparr>
           in case emit ''version:upgrade:error''
                     (StepError (builderVersion step) logMessage) s1 of
                (Some e, s2) \<Rightarrow> (Escape e, s2, lastSuccessfulVersion)
              | (None, s2) \<Rightarrow>
                  (case emit ''version:versionUpgrade:end''
                          (StepLog (builderVersion step) [errorLog]) s2 of
                     (Some e, s3) \<Rightarrow> (Escape e, s3, lastSuccessfulVersion)
                   | (None, s3) \<Rightarrow>
                       (if \<not> continueOnError (options s3) then Break else Next,
                        s3, lastSuccessfulVersion))))"

text \<open>One iteration of the \<open>for\<close> loop: the inner \<open>try\<close>, whose every exception goes to
  the \<open>catch\<close> above. The last component of the result is the local
  \<open>lastSuccessfulVersion\<close>.\<close>

definition runStep ::
  "'h step \<Rightarrow> 'h world \<Rightarrow> string option \<Rightarrow> flow \<times> 'h world \<times> string option" where
  "runStep step s lastSuccessfulVersion =
     (case emit ''version:versionUpgrade:start'' (ToVersion (builderVersion step))
             (s\<lparr>currentStep := Some step\<rparr>) of
        (Some e, s2) \<Rightarrow> stepFailed step e s2 lastSuccessfulVersion
      | (None, s2) \<Rightarrow>
          (case runSingleUpgrade step s2 of
             (Inl upgradeError, s3) \<Rightarrow>
               stepFailed step upgradeError
                 (consoleLog (ConsoleError ''[grapesjs-version-flow] Upgrade error caught:'') s3)
                 lastSuccessfulVersion
           | (Inr stepLogs, s3) \<Rightarrow>
               (case emit ''version:versionUpgrade:end''
                       (StepLog (builderVersion step) stepLogs)
                       (updateVersion (builderVersion step) s3) of
                  (Some e, s5) \<Rightarrow> stepFailed step e s5 (Some (builderVersion step))
                | (None, s5) \<Rightarrow> (Next, s5, Some (builderVersion step)))))"

text \<open>The \<open>for\<close> loop over the pending steps. The first component is the error that left
  the loop, if one did.\<close>

fun runLoop ::
  "'h step list \<Rightarrow> 'h world \<Rightarrow> string option \<Rightarrow> thrown option \<times> 'h world \<times> string option" where
  "runLoop [] s lastSuccessfulVersion = (None, s, lastSuccessfulVersion)"
| "runLoop (step # rest) s lastSuccessfulVersion =
     (case runStep step s lastSuccessfulVersion of
        (Next, s', last') \<Rightarrow> runLoop rest s' last'
      | (Break, s', last') \<Rightarrow> (None, s', last')
      | (Escape e, s', last') \<Rightarrow> (Some e, s', last'))"

text \<open>The body of the outer \<open>try\<close>: \<open>Inr\<close> the result it returns, \<open>Inl\<close> the error that
  escaped it.\<close>

definition tryBody ::
  "'h step list \<Rightarrow> 'h world \<Rightarrow> string option
   \<Rightarrow> (thrown + runResult) \<times> 'h world \<times> string option" where
  "tryBody pendingSteps s saved =
     (case emit ''version:upgrade:start'' (Pending (map builderVersion pendingSteps)) s of
        (Some e, s1) \<Rightarrow> (Inl e, s1, saved)
      | (None, s1) \<Rightarrow>
          (case runLoop pendingSteps s1 saved of
             (Some e, s2, lastSuccessfulVersion) \<Rightarrow> (Inl e, s2, lastSuccessfulVersion)
           | (None, s2, lastSuccessfulVersion) \<Rightarrow>
               (case emit ''version:upgrade:end''
                       (RunEnd lastSuccessfulVersion (length (failedSteps s2) > 0)) s2 of
                  (Some e, s3) \<Rightarrow> (Inl e, s3, lastSuccessfulVersion)
                | (None, s3) \<Rightarrow>
                    (Inr \<lparr>success = True, logs = allLogs s3,
                          upgradedTo = lastSuccessfulVersion,
                          resultFailedSteps = Some (failedSteps s3), error = None\<rparr>,
                     s3, lastSuccessfulVersion))))"

text \<open>The \<open>finally\<close> block.\<close>

definition finalize :: "'h world \<Rightarrow> 'h world" where
  "finalize s = s\<lparr>isUpgrading := False, currentStep := None\<rparr>"

text \<open>The outer \<open>catch\<close>: it reads \<open>catastrophicError.message\<close>, which itself raises on
  \<open>null\<close> and \<open>undefined\<close>; then the call rejects (\<open>Inl\<close>).\<close>

definition catastrophic ::
  "thrown \<Rightarrow> 'h world \<Rightarrow> string option \<Rightarrow> (thrown + runResult) \<times> 'h world" where
  "catastrophic catastrophicError s lastSuccessfulVersion =
     (let s1 = consoleLog
                 (ConsoleError ''[grapesjs-version-flow] Catastrophic error during upgrade process:'') s
      in case catastrophicError of
           Nullish n \<Rightarrow> (Inl (typeError n), s1)
         | Exn m \<Rightarrow>
             (let errorLog = \<lparr>level = ''error'',
                               message = ''Catastrophic upgrade error: '' @ orElse m ''Unknown error''\<rparr>;
                  s2 = s1\<lparr>allLogs := allLogs s1 @ [errorLog]\<rparr>
              in (Inr \<lparr>success = False, logs = allLogs s2,
                       upgradedTo = lastSuccessfulVersion,
                       resultFailedSteps = Some (failedSteps s2),
                       error = Some (orElse m ''Catastrophic upgrade error'')\<rparr>, s2)))"

definition alreadyRunning :: "'h world \<Rightarrow> runResult" where
  "alreadyRunning s =
     \<lparr>success = False, logs = [], upgradedTo = Some (opt_builderVersion (options s)),
      resultFailedSteps = None, error = Some ''Upgrade already in progress''\<rparr>"

definition runUpgrades :: "'h world \<Rightarrow> (thrown + runResult) \<times> 'h world" where
  "runUpgrades s =
     (if isUpgrading s then
        (Inr (alreadyRunning s),
         consoleLog (ConsoleWarn ''[grapesjs-version-flow] Upgrade already in progress'') s)
      else
        (let saved = getSavedVersion s;
             currentVersion = opt_builderVersion (options s);
             pendingSteps = getPendingUpgrades (options s) saved currentVersion
         in if length pendingSteps = 0 then
              (Inr \<lparr>success = True, logs = [], upgradedTo = Some currentVersion,
                    resultFailedSteps = None, error = None\<rparr>, s)
            else
              (let s0 = s\<lparr>isUpgrading := True, allLogs := [], failedSteps := []\<rparr>
               in case tryBody pendingSteps s0 saved of
                    (Inr r, s1, lastSuccessfulVersion) \<Rightarrow> (Inr r, finalize s1)
                  | (Inl e, s1, lastSuccessfulVersion) \<Rightarrow>
                      (case catastrophic e s1 lastSuccessfulVersion of
                         (r, s2) \<Rightarrow> (r, finalize s2)))))"

text \<open>Names for what a run computes first: the pending list, and the state at the
  transition to running (flag set, logs and failed steps reset).\<close>

definition pendingOf :: "'h world \<Rightarrow> 'h step list" where
  "pendingOf s = getPendingUpgrades (options s) (getSavedVersion s) (opt_builderVersion (options s))"

definition started :: "'h world \<Rightarrow> 'h world" where
  "started s = s\<lparr>isUpgrading := True, allLogs := [], failedSteps := []\<rparr>"

text \<open>Whether a run started from \<open>s\<close> ends with an error escaping the step loop: the
  guard passes, there are pending steps, and the body of the outer \<open>try\<close> throws.\<close>

definition escapes :: "'h world \<Rightarrow> bool" where
  "escapes s =
     (\<not> isUpgrading s \<and> pendingOf s \<noteq> []
      \<and> (case fst (tryBody (pendingOf s) (started s) (getSavedVersion s)) of
           Inl e \<Rightarrow> True
         | Inr r \<Rightarrow> False))"

text \<open>Whether the call that a run started from \<open>s\<close> makes rejects: the error that escapes
  the outer \<open>try\<close> is \<open>null\<close> or \<open>undefined\<close>, on which the outer \<open>catch\<close> raises.\<close>

definition rejects :: "'h world \<Rightarrow> bool" where
  "rejects s =
     (\<not> isUpgrading s \<and> pendingOf s \<noteq> []
      \<and> (case fst (tryBody (pendingOf s) (started s) (getSavedVersion s)) of
           Inl (Nullish n) \<Rightarrow> True
         | Inl (Exn m) \<Rightarrow> False
         | Inr r \<Rightarrow> False))"

text \<open>Whether, in the iteration of the step loop that starts at \<open>s\<close>, the step's upgrade
  action is called and returns.\<close>

definition upgradeReturns :: "'h step \<Rightarrow> 'h world \<Rightarrow> bool" where
  "upgradeReturns step s =
     (case emit ''version:versionUpgrade:start'' (ToVersion (builderVersion step))
             (s\<lparr>currentStep := Some step\<rparr>) of
        (Some e, s2) \<Rightarrow> False
      | (None, s2) \<Rightarrow>
          (case upgrade step (host s2) of
             (Returns logMessage, h, added) \<Rightarrow> True
           | (Throws e, h, added) \<Rightarrow> False))"

text \<open>The target versions of the steps whose upgrade action returns while the loop runs
  over the given steps from \<open>s\<close>, in order; and the same for the whole run that
  \<open>runUpgrades\<close> makes from \<open>s\<close> (none when the call is rejected, has nothing pending, or a
  listener of the start event throws).\<close>

fun advanced :: "'h step list \<Rightarrow> 'h world \<Rightarrow> string option \<Rightarrow> string list" where
  "advanced [] s lastSuccessfulVersion = []"
| "advanced (step # rest) s lastSuccessfulVersion =
     (if upgradeReturns step s then [builderVersion step] else [])
     @ (case runStep step s lastSuccessfulVersion of
          (Next, s', last') \<Rightarrow> advanced rest s' last'
        | (Break, s', last') \<Rightarrow> []
        | (Escape e, s', last') \<Rightarrow> [])"

definition advancedBy :: "'h world \<Rightarrow> string list" where
  "advancedBy s =
     (if isUpgrading s \<or> pendingOf s = [] then []
      else (case emit ''version:upgrade:start'' (Pending (map builderVersion (pendingOf s)))
                   (started s) of
              (Some e, s1) \<Rightarrow> []
            | (None, s1) \<Rightarrow> advanced (pendingOf s) s1 (getSavedVersion s)))"




section \<open>Concrete inputs\<close>

text \<open>Inputs at which the theorems below are evaluated. The host of these inputs is a
  list of strings to which an action appends its own mark; the editor of \<open>idle\<close> has no
  listener, and \<open>listenerThrows\<close> is an editor with one listener, on one event, that
  throws.\<close>

definition succeeds :: "string \<Rightarrow> (string list, string option) action" where
  "succeeds mark = (\<lambda>h. (Returns None, h @ [mark], []))"

definition fails :: "string \<Rightarrow> thrown \<Rightarrow> (string list, string option) action" where
  "fails mark e = (\<lambda>h. (Throws e, h @ [mark], []))"

definition plainStep :: "string \<Rightarrow> string list step" where
  "plainStep v = \<lparr>builderVersion = v, upgrade = succeeds v, whatsNew = None\<rparr>"

definition failingStep :: "string \<Rightarrow> thrown \<Rightarrow> string list step" where
  "failingStep v e = \<lparr>builderVersion = v, upgrade = fails v e, whatsNew = None\<rparr>"

definition announces :: "string \<Rightarrow> (string list, unit) action" where
  "announces mark = (\<lambda>h. (Returns (), h @ [mark], []))"

definition announceFails :: "string \<Rightarrow> thrown \<Rightarrow> (string list, unit) action" where
  "announceFails mark e = (\<lambda>h. (Throws e, h @ [mark], []))"

definition announcingStep :: "string \<Rightarrow> (string list, unit) action \<Rightarrow> string list step" where
  "announcingStep v act = \<lparr>builderVersion = v, upgrade = succeeds v, whatsNew = Some act\<rparr>"

definition catalogOptions :: "string list step list \<Rightarrow> string \<Rightarrow> bool \<Rightarrow> string list options" where
  "catalogOptions steps current continue =
     \<lparr>opt_builderVersion = current, versions = steps, compareFn = None,
      continueOnError = continue\<rparr>"

definition suppliedWithoutPolicy :: "string list supplied" where
  "suppliedWithoutPolicy =
     \<lparr>given_builderVersion = Some ''2.0.0'',
      given_versions = Some [failingStep ''1.1.0'' (Exn (Some ''boom'')), plainStep ''1.2.0''],
      given_compareFn = None,
      given_continueOnError = None\<rparr>"

definition listenerThrows ::
  "string \<Rightarrow> thrown \<Rightarrow> string \<Rightarrow> payload \<Rightarrow> string list \<Rightarrow> thrown option \<times> string list" where
  "listenerThrows eventName e =
     (\<lambda>name p h. (if name = eventName then Some e else None, h))"

definition idle :: "string list options \<Rightarrow> string option \<Rightarrow> string list world" where
  "idle opts saved =
     \<lparr>options = opts, savedVersion = saved, isUpgrading = False, currentStep = None,
      allLogs = [], failedSteps = [], host = [], trigger = (\<lambda>name p h. (None, h)),
      events = [], console = [], calls = []\<rparr>"

section \<open>The default comparator\<close>

lemmas input_eval =
  catalogOptions_def plainStep_def failingStep_def announcingStep_def succeeds_def fails_def
  announces_def announceFails_def idle_def listenerThrows_def

lemmas version_eval =
  defaultCompareVersions_def parseVersion_def parseInt_def isWhiteSpace_def isDigit_def
  digitVal_def digitsVal_def roundDouble_def compareLoop.simps partAt_def compareVersions_def

lemma zeroPad_length: "length parts \<le> n \<Longrightarrow> length (zeroPad n parts) = n"
  by (simp add: zeroPad_def)

lemma zeroPad_nth: "i < n \<Longrightarrow> length parts \<le> n \<Longrightarrow> zeroPad n parts ! i = partAt parts i"
  by (simp add: zeroPad_def partAt_def nth_append)

lemma compareLoop_firstDifference:
  "n = max (length v1) (length v2) \<Longrightarrow>
   compareLoop v1 v2 i = firstDifference (drop i (zeroPad n v1)) (drop i (zeroPad n v2))"
proof (induction v1 v2 i rule: compareLoop.induct)
  case (1 v1 v2 i)
  show ?case
  proof (cases "i < n")
    case True
    have l1: "length (zeroPad n v1) = n" and l2: "length (zeroPad n v2) = n"
      using 1(2) by (simp_all add: zeroPad_length)
    have d1: "drop i (zeroPad n v1) = partAt v1 i # drop (Suc i) (zeroPad n v1)"
      using True l1 1(2) by (simp add: Cons_nth_drop_Suc [symmetric] zeroPad_nth)
    have d2: "drop i (zeroPad n v2) = partAt v2 i # drop (Suc i) (zeroPad n v2)"
      using True l2 1(2) by (simp add: Cons_nth_drop_Suc [symmetric] zeroPad_nth)
    show ?thesis
    proof (cases "partAt v1 i = partAt v2 i")
      case eq: True
      have "compareLoop v1 v2 i = compareLoop v1 v2 (i + 1)"
        using True eq 1(2) by (subst compareLoop.simps) simp
      also have "\<dots> = firstDifference (drop (i + 1) (zeroPad n v1)) (drop (i + 1) (zeroPad n v2))"
        using "1.IH" True eq 1(2) by simp
      finally show ?thesis using d1 d2 eq by simp
    next
      case ne: False
      have "compareLoop v1 v2 i = sgn (partAt v1 i - partAt v2 i)"
        using True ne 1(2) by (subst compareLoop.simps) (auto simp: sgn_if)
      then show ?thesis using d1 d2 ne by simp
    qed
  next
    case False
    then have "compareLoop v1 v2 i = 0"
      using 1(2) by (subst compareLoop.simps) simp
    moreover have "drop i (zeroPad n v1) = []" "drop i (zeroPad n v2) = []"
      using False 1(2) by (auto simp: zeroPad_length)
    ultimately show ?thesis by simp
  qed
qed

lemma firstDifference_refl: "firstDifference xs xs = 0"
  by (induction xs) auto

lemma defaultCompareVersions_parts:
  "defaultCompareVersions a b =
     firstDifference (zeroPad (max (length (parseVersion a)) (length (parseVersion b))) (parseVersion a))
                     (zeroPad (max (length (parseVersion a)) (length (parseVersion b))) (parseVersion b))"
  by (simp add: defaultCompareVersions_def firstDifference_refl
      compareLoop_firstDifference [OF refl, of "parseVersion a" "parseVersion b" 0])

lemma firstDifference_append:
  "length xs = length ys \<Longrightarrow>
   firstDifference (xs @ us) (ys @ us) = firstDifference xs ys"
  by (induction xs ys rule: list_induct2) (auto simp: firstDifference_refl)

lemma zeroPad_more:
  "length parts \<le> n \<Longrightarrow> n \<le> N \<Longrightarrow> zeroPad N parts = zeroPad n parts @ replicate (N - n) 0"
  by (simp add: zeroPad_def replicate_add [symmetric])

lemma firstDifference_pad:
  assumes "length a \<le> n" "length b \<le> n" "n \<le> N"
  shows "firstDifference (zeroPad N a) (zeroPad N b) = firstDifference (zeroPad n a) (zeroPad n b)"
proof -
  have "zeroPad N a = zeroPad n a @ replicate (N - n) 0"
    and "zeroPad N b = zeroPad n b @ replicate (N - n) 0"
    using assms zeroPad_more [of a n N] zeroPad_more [of b n N] by blast+
  moreover have "length (zeroPad n a) = length (zeroPad n b)"
    using assms by (simp add: zeroPad_length)
  ultimately show ?thesis by (simp only: firstDifference_append)
qed

lemma firstDifference_antisym:
  "length xs = length ys \<Longrightarrow> firstDifference ys xs = - firstDifference xs ys"
  by (induction xs ys rule: list_induct2) (auto simp: sgn_if)

lemma firstDifference_trans:
  "length xs = length ys \<Longrightarrow> length ys = length zs \<Longrightarrow>
   firstDifference xs ys \<le> 0 \<Longrightarrow> firstDifference ys zs \<le> 0 \<Longrightarrow> firstDifference xs zs \<le> 0"
proof (induction xs ys zs rule: list_induct3)
  case Nil
  then show ?case by simp
next
  case (Cons x xs y ys z zs)
  consider "x < y" | "x = y" "y < z" | "x = y" "y = z" | "y < x" | "x = y" "z < y"
    by linarith
  then show ?case
  proof cases
    case 1
    then have "y \<le> z" using Cons.prems(2) by (simp add: sgn_if split: if_splits)
    then show ?thesis using 1 by (simp add: sgn_if)
  next
    case 2
    then show ?thesis by (simp add: sgn_if)
  next
    case 3
    then show ?thesis using Cons by simp
  next
    case 4
    then show ?thesis using Cons.prems(1) by (simp add: sgn_if)
  next
    case 5
    then show ?thesis using Cons.prems(2) by (simp add: sgn_if)
  qed
qed

section \<open>Sorting with a comparator\<close>

lemma mset_insertBy: "mset (insertBy cmp x ys) = add_mset x (mset ys)"
  by (induction ys) auto

lemma mset_sortBy: "mset (sortBy cmp xs) = mset xs"
  by (induction xs) (auto simp: sortBy_def mset_insertBy)

lemma set_insertBy: "set (insertBy cmp x ys) = insert x (set ys)"
  by (induction ys) auto

lemma consistent_flip: "consistent cmp \<Longrightarrow> \<not> cmp a b \<le> 0 \<Longrightarrow> cmp b a \<le> 0"
  unfolding consistent_def by (metis not_le order_less_imp_le)

lemma consistent_trans:
  "consistent cmp \<Longrightarrow> cmp a b \<le> 0 \<Longrightarrow> cmp b c \<le> 0 \<Longrightarrow> cmp a c \<le> 0"
  unfolding consistent_def by blast

lemma consistent_equiv:
  assumes "consistent cmp" "cmp x v = 0" "cmp y v = 0"
  shows "cmp x y \<le> 0"
proof -
  have "\<not> cmp v y < 0"
    using assms(1,3) unfolding consistent_def by (metis less_irrefl)
  then have "cmp v y \<le> 0 \<or> 0 < cmp v y" by linarith
  moreover have "\<not> 0 < cmp v y"
    using assms(1,3) unfolding consistent_def by (metis less_irrefl)
  ultimately have "cmp v y \<le> 0" by simp
  then show ?thesis using assms(1,2) consistent_trans [of cmp x v y] by simp
qed

lemma sorted_insertBy:
  assumes "consistent cmp"
  shows "sorted_wrt (\<lambda>a b. cmp a b \<le> 0) ys \<Longrightarrow> sorted_wrt (\<lambda>a b. cmp a b \<le> 0) (insertBy cmp x ys)"
proof (induction ys)
  case Nil
  then show ?case by simp
next
  case (Cons y ys)
  show ?case
  proof (cases "cmp x y \<le> 0")
    case True
    have "\<forall>z\<in>set ys. cmp x z \<le> 0"
      using Cons.prems True consistent_trans [OF assms, of x y] by auto
    then show ?thesis using True Cons.prems by simp
  next
    case False
    then have "cmp y x \<le> 0" using consistent_flip [OF assms] by blast
    then show ?thesis using False Cons by (auto simp: set_insertBy)
  qed
qed

lemma sorted_sortBy:
  "consistent cmp \<Longrightarrow> sorted_wrt (\<lambda>a b. cmp a b \<le> 0) (sortBy cmp xs)"
  by (induction xs) (simp_all add: sortBy_def sorted_insertBy)

lemma filter_insertBy:
  assumes "consistent cmp"
  shows "filter (\<lambda>s. cmp s v = 0) (insertBy cmp x ys) = filter (\<lambda>s. cmp s v = 0) (x # ys)"
proof (induction ys)
  case Nil
  then show ?case by simp
next
  case (Cons y ys)
  show ?case
  proof (cases "cmp x y \<le> 0")
    case True
    then show ?thesis by simp
  next
    case False
    then have "\<not> (cmp x v = 0 \<and> cmp y v = 0)"
      using consistent_equiv [OF assms, of x v y] by blast
    then show ?thesis using False Cons by auto
  qed
qed

lemma filter_sortBy:
  "consistent cmp \<Longrightarrow> filter (\<lambda>s. cmp s v = 0) (sortBy cmp xs) = filter (\<lambda>s. cmp s v = 0) xs"
proof (induction xs)
  case Nil
  then show ?case by (simp add: sortBy_def)
next
  case (Cons x xs)
  have "filter (\<lambda>s. cmp s v = 0) (sortBy cmp (x # xs))
        = filter (\<lambda>s. cmp s v = 0) (x # sortBy cmp xs)"
    using filter_insertBy [OF Cons.prems, of v x "sortBy cmp xs"] by (simp add: sortBy_def)
  then show ?case using Cons by simp
qed

section \<open>Pending upgrades\<close>

lemma defaultCompareVersions_common:
  assumes "length (parseVersion a) \<le> N" "length (parseVersion b) \<le> N"
  shows "defaultCompareVersions a b
         = firstDifference (zeroPad N (parseVersion a)) (zeroPad N (parseVersion b))"
proof -
  let ?n = "max (length (parseVersion a)) (length (parseVersion b))"
  have "firstDifference (zeroPad N (parseVersion a)) (zeroPad N (parseVersion b))
        = firstDifference (zeroPad ?n (parseVersion a)) (zeroPad ?n (parseVersion b))"
    using assms by (intro firstDifference_pad) simp_all
  then show ?thesis by (simp only: defaultCompareVersions_parts)
qed

lemma consistent_defaultCompareVersions: "consistent defaultCompareVersions"
  unfolding consistent_def
proof (intro conjI allI impI)
  fix a
  show "defaultCompareVersions a a = 0"
    by (simp add: defaultCompareVersions_def)
next
  fix a b
  let ?N = "max (length (parseVersion a)) (length (parseVersion b))"
  have ab: "defaultCompareVersions a b
            = firstDifference (zeroPad ?N (parseVersion a)) (zeroPad ?N (parseVersion b))"
    by (rule defaultCompareVersions_common) simp_all
  have ba: "defaultCompareVersions b a
            = firstDifference (zeroPad ?N (parseVersion b)) (zeroPad ?N (parseVersion a))"
    by (rule defaultCompareVersions_common) simp_all
  have "length (zeroPad ?N (parseVersion a)) = length (zeroPad ?N (parseVersion b))"
    by (simp add: zeroPad_length)
  then have "defaultCompareVersions b a = - defaultCompareVersions a b"
    unfolding ab ba by (rule firstDifference_antisym)
  then show "(defaultCompareVersions a b < 0) = (0 < defaultCompareVersions b a)"
    by simp
next
  fix a b c
  assume le1: "defaultCompareVersions a b \<le> 0" and le2: "defaultCompareVersions b c \<le> 0"
  let ?N = "max (length (parseVersion a)) (max (length (parseVersion b)) (length (parseVersion c)))"
  have ab: "defaultCompareVersions a b
            = firstDifference (zeroPad ?N (parseVersion a)) (zeroPad ?N (parseVersion b))"
    by (rule defaultCompareVersions_common) simp_all
  have bc: "defaultCompareVersions b c
            = firstDifference (zeroPad ?N (parseVersion b)) (zeroPad ?N (parseVersion c))"
    by (rule defaultCompareVersions_common) simp_all
  have ac: "defaultCompareVersions a c
            = firstDifference (zeroPad ?N (parseVersion a)) (zeroPad ?N (parseVersion c))"
    by (rule defaultCompareVersions_common) simp_all
  have l1: "length (zeroPad ?N (parseVersion a)) = length (zeroPad ?N (parseVersion b))"
    and l2: "length (zeroPad ?N (parseVersion b)) = length (zeroPad ?N (parseVersion c))"
    by (simp_all add: zeroPad_length)
  show "defaultCompareVersions a c \<le> 0"
    unfolding ac using firstDifference_trans [OF l1 l2] le1 le2 unfolding ab bc by blast
qed

lemma consistent_stepOrder:
  "consistent (compareVersions opts) \<Longrightarrow> consistent (stepOrder opts)"
  unfolding consistent_def stepOrder_def by blast

lemma compareVersions_default:
  "compareFn opts = None \<Longrightarrow> compareVersions opts = defaultCompareVersions"
  by (intro ext) (simp add: compareVersions_def)

lemma getPendingUpgrades_sortBy:
  "getPendingUpgrades opts saved current
   = sortBy (stepOrder opts) (filter (pendingStep opts saved current) (versions opts))"
proof -
  have "pendingStep opts saved current
        = (case saved of
             None \<Rightarrow> (\<lambda>step. compareVersions opts (builderVersion step) current \<le> 0)
           | Some v \<Rightarrow>
               if v = [] then (\<lambda>step. compareVersions opts (builderVersion step) current \<le> 0)
               else (\<lambda>step. compareVersions opts v (builderVersion step) < 0
                            \<and> compareVersions opts (builderVersion step) current \<le> 0))"
    by (intro ext) (simp add: pendingStep_def falsy_def split: option.splits)
  then show ?thesis
    by (simp add: getPendingUpgrades_def split: option.splits)
qed

text \<open>
  Claim C1, with absence read as the code reads it: a saved version that is \<open>null\<close>,
  \<open>undefined\<close> or the empty string is absent. The result of \<open>getPendingUpgrades\<close> holds
  exactly the pending steps of the catalog (with their multiplicities): those at or below
  the current version when the saved version is absent, and those strictly above the
  saved version and at or below the current version otherwise. For the default
  comparator, and for any consistent override, the result is ascending under the
  comparator, and the steps that compare equal to any given version stand in their
  catalog order.
\<close>

theorem getPendingUpgrades_pending_sorted_stable:
  "mset (getPendingUpgrades opts saved current)
     = mset (filter (pendingStep opts saved current) (versions opts))
   \<and> (compareFn opts = None \<or> consistent (compareVersions opts) \<longrightarrow>
        sorted_wrt (\<lambda>a b. compareVersions opts (builderVersion a) (builderVersion b) \<le> 0)
          (getPendingUpgrades opts saved current)
        \<and> filter (\<lambda>s. compareVersions opts (builderVersion s) v = 0)
            (getPendingUpgrades opts saved current)
          = filter (\<lambda>s. compareVersions opts (builderVersion s) v = 0)
              (filter (pendingStep opts saved current) (versions opts)))"
proof -
  let ?P = "filter (pendingStep opts saved current) (versions opts)"
  have 1: "mset (getPendingUpgrades opts saved current) = mset ?P"
    by (simp add: getPendingUpgrades_sortBy mset_sortBy)
  have 2: "sorted_wrt (\<lambda>a b. compareVersions opts (builderVersion a) (builderVersion b) \<le> 0)
             (getPendingUpgrades opts saved current)
           \<and> filter (\<lambda>s. compareVersions opts (builderVersion s) v = 0)
               (getPendingUpgrades opts saved current)
             = filter (\<lambda>s. compareVersions opts (builderVersion s) v = 0) ?P"
    if h: "compareFn opts = None \<or> consistent (compareVersions opts)"
  proof -
    have "consistent (compareVersions opts)"
      using h consistent_defaultCompareVersions by (auto simp: compareVersions_default)
    then have cs: "consistent (stepOrder opts)" by (rule consistent_stepOrder)
    have "sorted_wrt (\<lambda>a b. stepOrder opts a b \<le> 0) (sortBy (stepOrder opts) ?P)"
      using cs by (rule sorted_sortBy)
    then have a: "sorted_wrt (\<lambda>a b. compareVersions opts (builderVersion a) (builderVersion b) \<le> 0)
                   (getPendingUpgrades opts saved current)"
      by (simp add: getPendingUpgrades_sortBy stepOrder_def)
    let ?t = "\<lparr>builderVersion = v, upgrade = (\<lambda>h. (Returns None, h, [])), whatsNew = None\<rparr> :: 'a step"
    have "filter (\<lambda>s. stepOrder opts s ?t = 0) (sortBy (stepOrder opts) ?P)
          = filter (\<lambda>s. stepOrder opts s ?t = 0) ?P"
      using cs by (rule filter_sortBy)
    then have b: "filter (\<lambda>s. compareVersions opts (builderVersion s) v = 0)
                   (getPendingUpgrades opts saved current)
                  = filter (\<lambda>s. compareVersions opts (builderVersion s) v = 0) ?P"
      by (simp add: getPendingUpgrades_sortBy stepOrder_def)
    show ?thesis using a b by blast
  qed
  show ?thesis using 1 2 by blast
qed

text \<open>The theorem at a catalog given out of order, with two steps that compare equal
  (\<open>1.2.0\<close> before \<open>1.2\<close>): they come out first, in their catalog order.\<close>

theorem getPendingUpgrades_pending_sorted_stable_witness:
  "compareFn (catalogOptions [plainStep ''2.0.0'', plainStep ''1.1.0'', plainStep ''1.2.0'',
                              plainStep ''1.2'', plainStep ''3.0''] ''2.0.0'' False) = None
   \<and> map builderVersion
         (getPendingUpgrades
            (catalogOptions [plainStep ''2.0.0'', plainStep ''1.1.0'', plainStep ''1.2.0'',
                             plainStep ''1.2'', plainStep ''3.0''] ''2.0.0'' False)
            (Some ''1.1.0'') ''2.0.0'')
       = [''1.2.0'', ''1.2'', ''2.0.0'']
   \<and> sorted_wrt
         (\<lambda>a b. compareVersions
                   (catalogOptions [plainStep ''2.0.0'', plainStep ''1.1.0'', plainStep ''1.2.0'',
                                    plainStep ''1.2'', plainStep ''3.0''] ''2.0.0'' False)
                   (builderVersion a) (builderVersion b) \<le> 0)
         (getPendingUpgrades
            (catalogOptions [plainStep ''2.0.0'', plainStep ''1.1.0'', plainStep ''1.2.0'',
                             plainStep ''1.2'', plainStep ''3.0''] ''2.0.0'' False)
            (Some ''1.1.0'') ''2.0.0'')"
proof -
  let ?o = "catalogOptions [plainStep ''2.0.0'', plainStep ''1.1.0'', plainStep ''1.2.0'',
                            plainStep ''1.2'', plainStep ''3.0''] ''2.0.0'' False"
  have h: "compareFn ?o = None" by (simp add: catalogOptions_def)
  have e: "map builderVersion (getPendingUpgrades ?o (Some ''1.1.0'') ''2.0.0'')
           = [''1.2.0'', ''1.2'', ''2.0.0'']"
    by (simp add: getPendingUpgrades_def sortBy_def stepOrder_def input_eval version_eval)
  show ?thesis
    using h e getPendingUpgrades_pending_sorted_stable [of ?o "Some ''1.1.0''" "''2.0.0''" "''1.2''"]
    by blast
qed

text \<open>An empty string is a saved version that is present and not nullish, and it compares
  equal to \<open>0\<close>; the code returns the step \<open>0\<close>, which is not strictly above it.\<close>

theorem getPendingUpgrades_empty_saved_counterexample:
  "getPendingUpgrades (catalogOptions [plainStep ''0''] ''1'' False) (Some []) ''1''
     = [plainStep ''0'']
   \<and> filter (pendingWhenPresent (catalogOptions [plainStep ''0''] ''1'' False) [] ''1'')
        (versions (catalogOptions [plainStep ''0''] ''1'' False)) = []"
  by (simp add: getPendingUpgrades_def sortBy_def stepOrder_def pendingWhenPresent_def
      input_eval version_eval)

text \<open>
  Claim C7, with absence read as the code reads it (\<open>null\<close>, \<open>undefined\<close> or the empty
  string). For an absent saved version \<open>needsUpgrade\<close> holds exactly when the pending list
  for \<open>(null, current)\<close> is non-empty or some catalog step defines \<open>whatsNew\<close>; for a
  saved version that is a non-empty string it holds exactly when the saved version
  compares below the current one.
\<close>

theorem needsUpgrade_cases:
  "(falsy saved \<longrightarrow>
      needsUpgrade opts saved current
        = (getPendingUpgrades opts None current \<noteq> []
           \<or> (\<exists>step \<in> set (versions opts). whatsNew step \<noteq> None)))
   \<and> (v \<noteq> [] \<longrightarrow>
        needsUpgrade opts (Some v) current = (compareVersions opts v current < 0))"
  by (auto simp: needsUpgrade_def falsy_def getPendingUpgrades_def hasWhatsNewSteps_def
      list_ex_iff split: option.splits)

theorem needsUpgrade_cases_witness:
  "falsy None \<and> ''1.5.0'' \<noteq> []
   \<and> needsUpgrade (catalogOptions [announcingStep ''2.0.0'' (announces ''new'')] ''1.0.0'' False)
        None ''1.0.0''
   \<and> getPendingUpgrades
        (catalogOptions [announcingStep ''2.0.0'' (announces ''new'')] ''1.0.0'' False)
        None ''1.0.0'' = []
   \<and> needsUpgrade (catalogOptions [announcingStep ''2.0.0'' (announces ''new'')] ''1.0.0'' False)
        (Some ''1.5.0'') ''2.0.0''"
proof -
  let ?o = "catalogOptions [announcingStep ''2.0.0'' (announces ''new'')] ''1.0.0'' False"
  have f: "falsy None" by (simp add: falsy_def)
  have n: "''1.5.0'' \<noteq> []" by simp
  have w: "\<exists>step \<in> set (versions ?o). whatsNew step \<noteq> None"
    by (simp add: input_eval)
  have p: "getPendingUpgrades ?o None ''1.0.0'' = []"
    by (simp add: getPendingUpgrades_def sortBy_def stepOrder_def input_eval version_eval)
  have c: "compareVersions ?o ''1.5.0'' ''2.0.0'' < 0"
    by (simp add: input_eval version_eval)
  show ?thesis
    using f n w p c needsUpgrade_cases [of None ?o "''1.0.0''" "''1.5.0''"]
      needsUpgrade_cases [of None ?o "''2.0.0''" "''1.5.0''"]
    by blast
qed

text \<open>With the empty string saved and an empty catalog the code answers no, while the
  empty string compares below \<open>1\<close>.\<close>

theorem needsUpgrade_empty_saved_counterexample:
  "\<not> needsUpgrade (catalogOptions [] ''1'' False) (Some []) ''1''
   \<and> compareVersions (catalogOptions [] ''1'' False) [] ''1'' < 0"
  by (simp add: needsUpgrade_def getPendingUpgrades_def sortBy_def hasWhatsNewSteps_def
      input_eval version_eval)

section \<open>The comparator on well-formed identifiers\<close>

lemma split_dot_nonempty: "split_dot s \<noteq> []"
  by (induction s) (auto split: list.splits)

















section \<open>Properties of the upgrade engine\<close>

lemmas engine_eval =
  runUpgrades_def tryBody_def runStep_def stepFailed_def runSingleUpgrade_def emit_def
  consoleLog_def updateVersion_def finalize_def catastrophic_def orElse_def typeError_def
  typeErrorMessage_def getSavedVersion_def fullEventName_def alreadyRunning_def
  getPendingUpgrades_def sortBy_def stepOrder_def Let_def

lemmas run_eval =
  escapes_def rejects_def pendingOf_def started_def upgradeReturns_def advancedBy_def
  engine_eval input_eval version_eval

text \<open>
  Claim C5. While a run is in flight (\<open>isUpgrading\<close> is set), a call of \<open>runUpgrades\<close>
  returns at once the result that reports the failure to start, with its explanatory
  error; it changes nothing of the run state (logs, failed steps, flag, current step),
  of the options or of the host, it emits no event and it calls no action.
\<close>

theorem runUpgrades_rejects_reentry:
  "isUpgrading s \<Longrightarrow>
   runUpgrades s
     = (Inr \<lparr>success = False, logs = [], upgradedTo = Some (opt_builderVersion (options s)),
             resultFailedSteps = None, error = Some ''Upgrade already in progress''\<rparr>,
        s\<lparr>console := console s @ [ConsoleWarn ''[grapesjs-version-flow] Upgrade already in progress'']\<rparr>)
   \<and> allLogs (snd (runUpgrades s)) = allLogs s
   \<and> failedSteps (snd (runUpgrades s)) = failedSteps s
   \<and> isUpgrading (snd (runUpgrades s))
   \<and> currentStep (snd (runUpgrades s)) = currentStep s
   \<and> options (snd (runUpgrades s)) = options s
   \<and> host (snd (runUpgrades s)) = host s
   \<and> events (snd (runUpgrades s)) = events s
   \<and> calls (snd (runUpgrades s)) = calls s"
  by (simp add: runUpgrades_def alreadyRunning_def consoleLog_def)

theorem runUpgrades_rejects_reentry_witness:
  "isUpgrading ((idle (catalogOptions [plainStep ''1.1.0''] ''2.0.0'' False) (Some ''1.0.0''))
                  \<lparr>isUpgrading := True, failedSteps := [''1.0.5'']\<rparr>)
   \<and> fst (runUpgrades ((idle (catalogOptions [plainStep ''1.1.0''] ''2.0.0'' False) (Some ''1.0.0''))
                  \<lparr>isUpgrading := True, failedSteps := [''1.0.5'']\<rparr>))
       = Inr \<lparr>success = False, logs = [], upgradedTo = Some ''2.0.0'',
              resultFailedSteps = None, error = Some ''Upgrade already in progress''\<rparr>
   \<and> failedSteps (snd (runUpgrades ((idle (catalogOptions [plainStep ''1.1.0''] ''2.0.0'' False) (Some ''1.0.0''))
                  \<lparr>isUpgrading := True, failedSteps := [''1.0.5'']\<rparr>))) = [''1.0.5'']
   \<and> calls (snd (runUpgrades ((idle (catalogOptions [plainStep ''1.1.0''] ''2.0.0'' False) (Some ''1.0.0''))
                  \<lparr>isUpgrading := True, failedSteps := [''1.0.5'']\<rparr>))) = []"
proof -
  let ?s = "(idle (catalogOptions [plainStep ''1.1.0''] ''2.0.0'' False) (Some ''1.0.0''))
                  \<lparr>isUpgrading := True, failedSteps := [''1.0.5'']\<rparr>"
  have h: "isUpgrading ?s" by simp
  have o: "opt_builderVersion (options ?s) = ''2.0.0''" "failedSteps ?s = [''1.0.5'']" "calls ?s = []"
    by (simp_all add: input_eval)
  show ?thesis
    using h o runUpgrades_rejects_reentry [OF h] by simp
qed





text \<open>
  Claim C3 says that, with continuation disabled and pending steps A, B, C of which A
  fails, the result lists exactly A as failed, \<open>upgradedTo\<close> is the saved version, and
  B and C are not called. At the input below A rejects with \<open>undefined\<close>: reading
  \<open>error.message\<close> in the step's \<open>catch\<close> raises, the failure escapes to the outer handler
  before the step is recorded, and the result lists no failed step.
\<close>

theorem runUpgrades_nullish_failure_not_recorded:
  "fst (runUpgrades (idle (catalogOptions [failingStep ''1.1.0'' (Nullish Undefined),
          plainStep ''1.2.0'', plainStep ''2.0.0''] ''2.0.0'' False) (Some ''1.0.0'')))
     = Inr \<lparr>success = False,
            logs = [\<lparr>level = ''error'',
                     message = ''Catastrophic upgrade error: '' @ typeErrorMessage Undefined\<rparr>],
            upgradedTo = Some ''1.0.0'', resultFailedSteps = Some [],
            error = Some (typeErrorMessage Undefined)\<rparr>
   \<and> calls (snd (runUpgrades (idle (catalogOptions [failingStep ''1.1.0'' (Nullish Undefined),
          plainStep ''1.2.0'', plainStep ''2.0.0''] ''2.0.0'' False) (Some ''1.0.0''))))
     = [UpgradeCall ''1.1.0'']"
  by (simp add: run_eval)

text \<open>
  Claim C4 says that continuation after a failure is disabled unless the integrator sets
  \<open>continueOnError\<close>. At the input below the option is not supplied: the merged options have
  it enabled, and a run goes on to the second step after the first one failed.
\<close>

theorem default_policy_continues_after_failure:
  "given_continueOnError suppliedWithoutPolicy = None
   \<and> plugin suppliedWithoutPolicy = Some (mergeOptions suppliedWithoutPolicy)
   \<and> continueOnError (mergeOptions suppliedWithoutPolicy)
   \<and> calls (snd (runUpgrades (idle (mergeOptions suppliedWithoutPolicy) (Some ''1.0.0''))))
     = [UpgradeCall ''1.1.0'', UpgradeCall ''1.2.0'']
   \<and> (\<exists>r. fst (runUpgrades (idle (mergeOptions suppliedWithoutPolicy) (Some ''1.0.0''))) = Inr r
          \<and> upgradedTo r = Some ''1.2.0'' \<and> resultFailedSteps r = Some [''1.1.0''])"
  by (simp add: suppliedWithoutPolicy_def plugin_def mergeOptions_def run_eval)










lemma runUpgrades_unfold:
  "\<not> isUpgrading s \<Longrightarrow>
   runUpgrades s
   = (if pendingOf s = [] then
        (Inr \<lparr>success = True, logs = [], upgradedTo = Some (opt_builderVersion (options s)),
              resultFailedSteps = None, error = None\<rparr>, s)
      else (case fst (tryBody (pendingOf s) (started s) (savedVersion s)) of
              Inr r \<Rightarrow> (Inr r, finalize (fst (snd (tryBody (pendingOf s) (started s) (savedVersion s)))))
            | Inl e \<Rightarrow>
                (fst (catastrophic e (fst (snd (tryBody (pendingOf s) (started s) (savedVersion s))))
                        (snd (snd (tryBody (pendingOf s) (started s) (savedVersion s))))),
                 finalize (snd (catastrophic e (fst (snd (tryBody (pendingOf s) (started s) (savedVersion s))))
                        (snd (snd (tryBody (pendingOf s) (started s) (savedVersion s)))))))))"
  by (simp add: runUpgrades_def pendingOf_def started_def getSavedVersion_def Let_def
      split: prod.splits sum.splits)




lemma typeErrorMessage_nonempty: "typeErrorMessage n \<noteq> []"
  by (simp add: typeErrorMessage_def)

lemma escapes_iff:
  "escapes s = (\<not> isUpgrading s \<and> pendingOf s \<noteq> []
                \<and> (\<exists>e. fst (tryBody (pendingOf s) (started s) (savedVersion s)) = Inl e))"
  by (auto simp: escapes_def getSavedVersion_def split: sum.splits)

lemma rejects_iff:
  "rejects s = (\<not> isUpgrading s \<and> pendingOf s \<noteq> []
                \<and> (\<exists>n. fst (tryBody (pendingOf s) (started s) (savedVersion s)) = Inl (Nullish n)))"
  by (auto simp: rejects_def getSavedVersion_def split: sum.splits thrown.splits)

lemma tryBody_success:
  "fst (tryBody steps s saved) = Inr r \<Longrightarrow> success r"
  by (auto simp: tryBody_def split: prod.splits option.splits)

lemma catastrophic_result:
  "fst (catastrophic (Exn m) s prev)
     = Inr \<lparr>success = False,
            logs = allLogs s @ [\<lparr>level = ''error'',
                                 message = ''Catastrophic upgrade error: '' @ orElse m ''Unknown error''\<rparr>],
            upgradedTo = prev,
            resultFailedSteps = Some (failedSteps s),
            error = Some (orElse m ''Catastrophic upgrade error'')\<rparr>
   \<and> allLogs (snd (catastrophic (Exn m) s prev))
       = allLogs s @ [\<lparr>level = ''error'',
                        message = ''Catastrophic upgrade error: '' @ orElse m ''Unknown error''\<rparr>]
   \<and> fst (catastrophic (Nullish n) s prev) = Inl (typeError n)
   \<and> allLogs (snd (catastrophic (Nullish n) s prev)) = allLogs s"
  by (simp add: catastrophic_def consoleLog_def Let_def)

text \<open>
  Claim C10. The \<open>success\<close> of every result that \<open>runUpgrades\<close> returns is false exactly
  for the re-entrancy rejection and for the catastrophic result (an error escaped the step
  loop): a run that completes with no escaping error has \<open>success\<close> true whether or not
  steps failed. A result is returned by every call but the one in which the escaping error
  is \<open>null\<close> or \<open>undefined\<close>.
\<close>

theorem runUpgrades_success_flag:
  "(fst (runUpgrades s) = Inr r \<longrightarrow> success r = (\<not> isUpgrading s \<and> \<not> escapes s))
   \<and> ((\<exists>r. fst (runUpgrades s) = Inr r) = (\<not> rejects s))"
proof (cases "isUpgrading s")
  case True
  then show ?thesis
    by (auto simp: runUpgrades_def alreadyRunning_def escapes_def rejects_def)
next
  case idle: False
  let ?t = "tryBody (pendingOf s) (started s) (savedVersion s)"
  note u = runUpgrades_unfold [OF idle]
  show ?thesis
  proof (cases "pendingOf s = []")
    case True
    then show ?thesis using idle by (auto simp: u escapes_iff rejects_iff)
  next
    case ne: False
    show ?thesis
    proof (cases "fst ?t")
      case (Inr r')
      then show ?thesis
        using idle ne tryBody_success [of "pendingOf s" "started s" "savedVersion s" r']
        by (auto simp: u escapes_iff rejects_iff)
    next
      case (Inl e)
      show ?thesis
      proof (cases e)
        case (Nullish n)
        then show ?thesis
          using idle ne Inl catastrophic_result [of undefined "fst (snd ?t)" "snd (snd ?t)" n]
          by (auto simp: u escapes_iff rejects_iff)
      next
        case (Exn m)
        then show ?thesis
          using idle ne Inl catastrophic_result [of m "fst (snd ?t)" "snd (snd ?t)" undefined]
          by (auto simp: u escapes_iff rejects_iff)
      qed
    qed
  qed
qed

theorem runUpgrades_success_flag_witness:
  "\<not> isUpgrading (idle (catalogOptions [failingStep ''1.1.0'' (Exn (Some ''boom'')),
          plainStep ''1.2.0''] ''2.0.0'' True) (Some ''1.0.0''))
   \<and> \<not> escapes (idle (catalogOptions [failingStep ''1.1.0'' (Exn (Some ''boom'')),
          plainStep ''1.2.0''] ''2.0.0'' True) (Some ''1.0.0''))
   \<and> (\<exists>r. fst (runUpgrades (idle (catalogOptions [failingStep ''1.1.0'' (Exn (Some ''boom'')),
          plainStep ''1.2.0''] ''2.0.0'' True) (Some ''1.0.0''))) = Inr r
          \<and> success r \<and> resultFailedSteps r = Some [''1.1.0''])"
proof -
  let ?w = "idle (catalogOptions [failingStep ''1.1.0'' (Exn (Some ''boom'')),
          plainStep ''1.2.0''] ''2.0.0'' True) (Some ''1.0.0'')"
  have h: "\<not> isUpgrading ?w" by (simp add: input_eval)
  have e: "\<not> escapes ?w" by (simp add: run_eval)
  have f: "\<exists>r. fst (runUpgrades ?w) = Inr r \<and> resultFailedSteps r = Some [''1.1.0'']"
    by (simp add: run_eval)
  obtain r where r0: "fst (runUpgrades ?w) = Inr r"
    using f by blast
  have r: "fst (runUpgrades ?w) = Inr r" "success r = (\<not> isUpgrading ?w \<and> \<not> escapes ?w)"
    using r0 runUpgrades_success_flag [of ?w r] by blast+
  have "success r \<and> resultFailedSteps r = Some [''1.1.0'']"
    using r h e f by auto
  then show ?thesis using h e r(1) by blast
qed

text \<open>
  Claim C6 says that on every exit path of \<open>runUpgrades\<close> the running flag and the current
  step are cleared, and that an error escaping the step loop is logged and answered with
  the failure result that carries the logs and the progress made. At the input below the
  first step succeeds, the second fails, and a listener of the error event throws
  \<open>undefined\<close>: that value escapes the loop, the outer \<open>catch\<close> raises on reading its
  \<open>message\<close>, and the call rejects; no entry is added to the logs and no result is
  returned. The flag and the current step are cleared all the same.
\<close>

theorem runUpgrades_nullish_escape_rejects:
  "fst (runUpgrades ((idle (catalogOptions [plainStep ''1.1.0'',
          failingStep ''1.2.0'' (Exn (Some ''boom''))] ''2.0.0'' True) (Some ''1.0.0''))
        \<lparr>trigger := listenerThrows ''version:upgrade:error'' (Nullish Undefined)\<rparr>))
     = Inl (typeError Undefined)
   \<and> allLogs (snd (runUpgrades ((idle (catalogOptions [plainStep ''1.1.0'',
          failingStep ''1.2.0'' (Exn (Some ''boom''))] ''2.0.0'' True) (Some ''1.0.0''))
        \<lparr>trigger := listenerThrows ''version:upgrade:error'' (Nullish Undefined)\<rparr>)))
     = [\<lparr>level = ''info'', message = ''Upgraded to 1.1.0''\<rparr>,
        \<lparr>level = ''error'', message = ''Failed to upgrade to 1.2.0: boom''\<rparr>]
   \<and> \<not> isUpgrading (snd (runUpgrades ((idle (catalogOptions [plainStep ''1.1.0'',
          failingStep ''1.2.0'' (Exn (Some ''boom''))] ''2.0.0'' True) (Some ''1.0.0''))
        \<lparr>trigger := listenerThrows ''version:upgrade:error'' (Nullish Undefined)\<rparr>)))
   \<and> currentStep (snd (runUpgrades ((idle (catalogOptions [plainStep ''1.1.0'',
          failingStep ''1.2.0'' (Exn (Some ''boom''))] ''2.0.0'' True) (Some ''1.0.0''))
        \<lparr>trigger := listenerThrows ''version:upgrade:error'' (Nullish Undefined)\<rparr>)))
     = None"
  by (simp add: run_eval)

text \<open>What does hold of every call that passes the guard: the flag is cleared on return,
  and so is the current step when there were pending steps or it was clear before; and an
  escaping error other than \<open>null\<close> and \<open>undefined\<close> is logged and answered with the
  failure result.\<close>

lemma runUpgrades_clears_flags:
  assumes "\<not> isUpgrading s"
  shows "\<not> isUpgrading (snd (runUpgrades s))
         \<and> (pendingOf s \<noteq> [] \<or> currentStep s = None \<longrightarrow> currentStep (snd (runUpgrades s)) = None)"
  using assms by (auto simp: runUpgrades_unfold finalize_def split: sum.splits)

lemma runUpgrades_catastrophic_result:
  assumes "\<not> isUpgrading s" "pendingOf s \<noteq> []"
    and "fst (tryBody (pendingOf s) (started s) (savedVersion s)) = Inl (Exn m)"
  shows "fst (runUpgrades s)
         = Inr \<lparr>success = False,
                logs = allLogs (fst (snd (tryBody (pendingOf s) (started s) (savedVersion s))))
                       @ [\<lparr>level = ''error'',
                            message = ''Catastrophic upgrade error: '' @ orElse m ''Unknown error''\<rparr>],
                upgradedTo = snd (snd (tryBody (pendingOf s) (started s) (savedVersion s))),
                resultFailedSteps
                  = Some (failedSteps (fst (snd (tryBody (pendingOf s) (started s) (savedVersion s))))),
                error = Some (orElse m ''Catastrophic upgrade error'')\<rparr>
         \<and> allLogs (snd (runUpgrades s))
             = allLogs (fst (snd (tryBody (pendingOf s) (started s) (savedVersion s))))
               @ [\<lparr>level = ''error'',
                    message = ''Catastrophic upgrade error: '' @ orElse m ''Unknown error''\<rparr>]"
  using assms by (simp add: runUpgrades_unfold catastrophic_result finalize_def)

text \<open>When no listener throws or touches the host, the first pending step fails with a
  value other than \<open>null\<close> and \<open>undefined\<close> and continuation is disabled, the run stops
  there: the result lists exactly that step as failed, \<open>upgradedTo\<close> is the saved version,
  and no other action is called.\<close>

lemma runUpgrades_halts_after_first_failure:
  assumes "\<not> isUpgrading s" "\<not> continueOnError (options s)"
    and "trigger s = (\<lambda>name p h. (None, h))"
    and "pendingOf s = A # rest"
    and "upgrade A (host s) = (Throws (Exn m), h, added)"
  shows "fst (runUpgrades s)
         = Inr \<lparr>success = True,
                logs = added @ [\<lparr>level = ''error'',
                                  message = ''Failed to upgrade to '' @ builderVersion A @ '': ''
                                            @ orElse m ''Unknown error occurred''\<rparr>],
                upgradedTo = savedVersion s,
                resultFailedSteps = Some [builderVersion A], error = None\<rparr>
         \<and> calls (snd (runUpgrades s)) = calls s @ [UpgradeCall (builderVersion A)]
         \<and> host (snd (runUpgrades s)) = h
         \<and> options (snd (runUpgrades s)) = options s"
  using assms
  by (simp add: runUpgrades_unfold started_def tryBody_def runStep_def stepFailed_def
      runSingleUpgrade_def emit_def consoleLog_def finalize_def Let_def)

end
